theory Spec2Isabelle
  imports Main
begin

section \<open>The asynchronous collaborator: promises and tasks\<close>

text \<open>
  Modelled from the spec: \<^verbatim>\<open>ReaderTask.ts\<close> composes two collaborators, \<^verbatim>\<open>Task\<close> and
  \<^verbatim>\<open>Reader\<close>, whose modules are missing from the sources; this section and the next
  model them from the specification's description. The asynchronous effect is "a
  zero-argument operation that, when invoked, produces an asynchronous result that always
  eventually resolves to a value"; its side effects "live inside the collaborator values".

  A running asynchronous computation (a JavaScript promise) is either settled with its
  value, or pending: then its next turn on the event loop reads and updates the shared
  world and leaves the rest of the computation. The type is inductive, so every promise
  settles after finitely many turns. A \<^verbatim>\<open>Task\<close> is the operation that starts such a
  computation: invoking it runs the synchronous part against the world and returns the
  promise. Invoking it twice starts two independent computations; nothing is memoised.
\<close>

datatype ('w, 'a) Promise =
    Settled 'a
  | Pending "'w \<Rightarrow> 'w \<times> ('w, 'a) Promise"

type_synonym ('w, 'a) Task = "'w \<Rightarrow> 'w \<times> ('w, 'a) Promise"

text \<open>
  The world: the mutable state shared by all computations (\<open>store\<close>), and the order in
  which the event loop will resume pending computations that wait side by side
  (\<open>arrivals\<close>: \<open>True\<close> resumes the left one, \<open>False\<close> the right one). The order stands
  for the completion times of timers and I/O, which no program controls.
\<close>

record 'u World =
  arrivals :: "bool list"
  store :: 'u

definition next_arrival :: "'u World \<Rightarrow> bool \<times> 'u World" where
  "next_arrival w =
     (case arrivals w of [] \<Rightarrow> (True, w) | b # bs \<Rightarrow> (b, w\<lparr>arrivals := bs\<rparr>))"

text \<open>Awaiting a promise: run its turns until it is settled.\<close>

primrec settle :: "('w, 'a) Promise \<Rightarrow> 'w \<Rightarrow> 'w \<times> 'a" where
  "settle (Settled a) = (\<lambda>w. (w, a))"
| "settle (Pending k) = (\<lambda>w. case map_prod id settle (k w) of (w', s) \<Rightarrow> s w')"

text \<open>Running a task alone: invoke it and await its promise.\<close>

definition run :: "('w, 'a) Task \<Rightarrow> 'w \<Rightarrow> 'w \<times> 'a" where
  "run t w = (case t w of (w', p) \<Rightarrow> settle p w')"

text \<open>
  \<^verbatim>\<open>p.then(f)\<close> for a callback returning a plain value: the callback runs in a turn of
  its own after \<open>p\<close> has settled.
\<close>

primrec then_value :: "('a \<Rightarrow> 'b) \<Rightarrow> ('w, 'a) Promise \<Rightarrow> ('w, 'b) Promise" where
  "then_value f (Settled a) = Pending (\<lambda>w. (w, Settled (f a)))"
| "then_value f (Pending k) = Pending (\<lambda>w. map_prod id (then_value f) (k w))"

text \<open>
  \<^verbatim>\<open>p.then(a => f(a)())\<close> for a callback that starts another task: the task is
  invoked in a later turn, once \<open>p\<close> has settled, and its promise is adopted.
\<close>

primrec then_task :: "('a \<Rightarrow> ('w, 'b) Task) \<Rightarrow> ('w, 'a) Promise \<Rightarrow> ('w, 'b) Promise" where
  "then_task f (Settled a) = Pending (f a)"
| "then_task f (Pending k) = Pending (\<lambda>w. map_prod id (then_task f) (k w))"

text \<open>Relabelling the value of a promise without adding a turn.\<close>

primrec pmap :: "('a \<Rightarrow> 'b) \<Rightarrow> ('w, 'a) Promise \<Rightarrow> ('w, 'b) Promise" where
  "pmap f (Settled a) = Settled (f a)"
| "pmap f (Pending k) = Pending (\<lambda>w. map_prod id (pmap f) (k w))"

text \<open>
  \<^verbatim>\<open>Promise.all([p, q])\<close>: both computations are already running; each turn belongs to
  one of them. While both are pending the world's arrival order picks the one that is
  resumed; the pair is settled once both are. \<open>both_left K q\<close> is the case of a pending
  left computation whose next turn is \<open>K\<close>, by recursion on the right computation.
\<close>

primrec both_left ::
  "('u World \<Rightarrow> 'u World \<times> (('u World, 'b) Promise \<Rightarrow> ('u World, 'a \<times> 'b) Promise))
   \<Rightarrow> ('u World, 'b) Promise \<Rightarrow> ('u World, 'a \<times> 'b) Promise" where
  "both_left K (Settled b) = Pending (\<lambda>w. case K w of (w', c) \<Rightarrow> (w', c (Settled b)))"
| "both_left K (Pending k2) = Pending (\<lambda>w.
     case next_arrival w of
       (True, w0) \<Rightarrow> (case K w0 of (w', c) \<Rightarrow> (w', c (Pending k2)))
     | (False, w0) \<Rightarrow> map_prod id (both_left K) (k2 w0))"

primrec both ::
  "('u World, 'a) Promise \<Rightarrow> ('u World, 'b) Promise \<Rightarrow> ('u World, 'a \<times> 'b) Promise" where
  "both (Settled a) = pmap (Pair a)"
| "both (Pending k1) = both_left (\<lambda>w. map_prod id both (k1 w))"



text \<open>
  What a promise can settle with: \<open>settles_in p P\<close> holds when \<open>P\<close> is true of the value
  of \<open>p\<close> whatever the world does in between; \<open>task_settles_in\<close> is the same for a task
  started in any world.
\<close>

primrec settles_in :: "('w, 'a) Promise \<Rightarrow> ('a \<Rightarrow> bool) \<Rightarrow> bool" where
  "settles_in (Settled a) = (\<lambda>P. P a)"
| "settles_in (Pending k) =
     (\<lambda>P. \<forall>w. (case map_prod id settles_in (k w) of (w', s) \<Rightarrow> s P))"

definition task_settles_in :: "('w, 'a) Task \<Rightarrow> ('a \<Rightarrow> bool) \<Rightarrow> bool" where
  "task_settles_in t P = (\<forall>w. settles_in (snd (t w)) P)"

subsection \<open>The operations of \<^verbatim>\<open>Task\<close>\<close>

text \<open>
  Modelled from the spec: the module \<^verbatim>\<open>Task\<close> (\<^verbatim>\<open>T.of\<close>, \<^verbatim>\<open>T.map\<close>, \<^verbatim>\<open>T.chain\<close>,
  \<^verbatim>\<open>T.ap\<close>, \<^verbatim>\<open>T.getSemigroup\<close>, \<^verbatim>\<open>T.sequenceArray\<close>) is missing from the sources.
  \<^item> \<open>T_of a\<close> is \<^verbatim>\<open>() => Promise.resolve(a)\<close>: settled at once, the world untouched.
  \<^item> \<open>T_map f fa\<close> is \<^verbatim>\<open>() => fa().then(f)\<close>.
  \<^item> \<open>T_chain f ma\<close> is \<^verbatim>\<open>() => ma().then(a => f(a)())\<close>: the second computation
    starts only after the first has settled.
  \<^item> \<open>T_ap fa fab\<close> is \<^verbatim>\<open>() => Promise.all([fab(), fa()]).then(([f, a]) => f(a))\<close>:
    both computations are started without waiting on each other, and only the
    combination is sequenced after both have settled.
  \<^item> \<open>T_sequenceArray\<close> starts every task of the array and collects the values in
    input order (concurrent start, ordered collection).
\<close>

definition T_of :: "'a \<Rightarrow> ('w, 'a) Task" where
  "T_of a = (\<lambda>w. (w, Settled a))"

definition T_map :: "('a \<Rightarrow> 'b) \<Rightarrow> ('w, 'a) Task \<Rightarrow> ('w, 'b) Task" where
  "T_map f fa = (\<lambda>w. case fa w of (w', p) \<Rightarrow> (w', then_value f p))"

definition T_chain :: "('a \<Rightarrow> ('w, 'b) Task) \<Rightarrow> ('w, 'a) Task \<Rightarrow> ('w, 'b) Task" where
  "T_chain f ma = (\<lambda>w. case ma w of (w', p) \<Rightarrow> (w', then_task f p))"

definition T_ap ::
  "('u World, 'a) Task \<Rightarrow> ('u World, 'a \<Rightarrow> 'b) Task \<Rightarrow> ('u World, 'b) Task" where
  "T_ap fa fab = (\<lambda>w.
     case fab w of (w1, p) \<Rightarrow>
       (case fa w1 of (w2, q) \<Rightarrow> (w2, then_value (\<lambda>(f, a). f a) (both p q))))"


text \<open>
  Modelled from the spec: the capability records \<^verbatim>\<open>Semigroup\<close> and \<^verbatim>\<open>Monoid\<close> (a
  combine operation, optionally with an identity element) and \<^verbatim>\<open>T.getSemigroup\<close>, which
  runs the first task, then the second, and combines the two values:
  \<^verbatim>\<open>concat: (x, y) => () => x().then(rx => y().then(ry => S.concat(rx, ry)))\<close>.
\<close>

record 'a Semigroup =
  concat_S :: "'a \<Rightarrow> 'a \<Rightarrow> 'a"

record 'a Monoid = "'a Semigroup" +
  empty_M :: 'a

definition T_getSemigroup :: "('a, 'z) Semigroup_scheme \<Rightarrow> ('w, 'a) Task Semigroup" where
  "T_getSemigroup S =
     \<lparr>concat_S = (\<lambda>x y. T_chain (\<lambda>rx. T_map (\<lambda>ry. concat_S S rx ry) y) x)\<rparr>"

section \<open>The environment collaborator and the composition helpers\<close>

text \<open>
  Modelled from the spec: the module \<^verbatim>\<open>Reader\<close> is missing from the sources. A reader
  is a pure total function from the environment to a value; \<open>R_of a\<close> ignores the
  environment, \<open>R_map f\<close> transforms the value, \<open>R_getSemigroup S\<close> applies both readers
  to the same environment and combines the two values, and
  \<open>R_traverseArrayWithIndex f arr\<close> applies \<open>f index element\<close> of every element to the
  same environment, keeping the order of the array.
\<close>

type_synonym ('r, 'a) Reader = "'r \<Rightarrow> 'a"

definition R_of :: "'a \<Rightarrow> ('r, 'a) Reader" where
  "R_of a = (\<lambda>_. a)"


definition R_getSemigroup :: "('a, 'z) Semigroup_scheme \<Rightarrow> ('r, 'a) Reader Semigroup" where
  "R_getSemigroup S = \<lparr>concat_S = (\<lambda>x y. (\<lambda>e. concat_S S (x e) (y e)))\<rparr>"


text \<open>
  Modelled from the spec: the helpers of the module \<^verbatim>\<open>function\<close> are missing from the
  sources. \<open>pipe a f\<close> is \<open>f a\<close>, \<open>flow f g\<close> is left-to-right composition, and
  \<open>bind_field a name b\<close> (\<^verbatim>\<open>bind_\<close>) is the record \<open>a\<close> extended with the field
  \<open>name\<close> holding \<open>b\<close>. A JavaScript record is a finite map from field names to values.
\<close>

definition identity :: "'a \<Rightarrow> 'a" where
  "identity a = a"

definition pipe :: "'a \<Rightarrow> ('a \<Rightarrow> 'b) \<Rightarrow> 'b" where
  "pipe a ab = ab a"

definition flow :: "('a \<Rightarrow> 'b) \<Rightarrow> ('b \<Rightarrow> 'c) \<Rightarrow> 'a \<Rightarrow> 'c" where
  "flow ab bc = (\<lambda>a. bc (ab a))"

definition bind_field :: "(string \<rightharpoonup> 'v) \<Rightarrow> string \<Rightarrow> 'v \<Rightarrow> (string \<rightharpoonup> 'v)" where
  "bind_field a name b = a(name \<mapsto> b)"

section \<open>\<^verbatim>\<open>ReaderTask.ts\<close>\<close>

text \<open>The model: \<^verbatim>\<open>interface ReaderTask<R, A> { (r: R): Task<A> }\<close>.\<close>

type_synonym ('w, 'r, 'a) ReaderTask = "'r \<Rightarrow> ('w, 'a) Task"

subsection \<open>Constructors\<close>

definition fromTask :: "('w, 'a) Task \<Rightarrow> ('w, 'r, 'a) ReaderTask" where
  "fromTask = R_of"

definition fromReader :: "('r, 'a) Reader \<Rightarrow> ('w, 'r, 'a) ReaderTask" where
  "fromReader ma = flow ma T_of"

definition ask :: "('w, 'r, 'r) ReaderTask" where
  "ask = T_of"

definition asks :: "('r \<Rightarrow> 'a) \<Rightarrow> ('w, 'r, 'a) ReaderTask" where
  "asks f = flow T_of (T_map f)"

subsection \<open>Functor, Apply, Applicative, Monad\<close>

definition map_RT :: "('a \<Rightarrow> 'b) \<Rightarrow> ('w, 'r, 'a) ReaderTask \<Rightarrow> ('w, 'r, 'b) ReaderTask" where
  "map_RT f fa = flow fa (T_map f)"

definition apW ::
  "('u World, 'r, 'a) ReaderTask \<Rightarrow> ('u World, 'r, 'a \<Rightarrow> 'b) ReaderTask
   \<Rightarrow> ('u World, 'r, 'b) ReaderTask" where
  "apW fa fab = (\<lambda>r. pipe (fab r) (T_ap (fa r)))"

definition ap ::
  "('u World, 'r, 'a) ReaderTask \<Rightarrow> ('u World, 'r, 'a \<Rightarrow> 'b) ReaderTask
   \<Rightarrow> ('u World, 'r, 'b) ReaderTask" where
  "ap = apW"

definition of_RT :: "'a \<Rightarrow> ('w, 'r, 'a) ReaderTask" where
  "of_RT a = (\<lambda>_. T_of a)"

definition chainW ::
  "('a \<Rightarrow> ('w, 'r, 'b) ReaderTask) \<Rightarrow> ('w, 'r, 'a) ReaderTask \<Rightarrow> ('w, 'r, 'b) ReaderTask" where
  "chainW f fa = (\<lambda>r. pipe (fa r) (T_chain (\<lambda>a. f a r)))"

definition chain_RT ::
  "('a \<Rightarrow> ('w, 'r, 'b) ReaderTask) \<Rightarrow> ('w, 'r, 'a) ReaderTask \<Rightarrow> ('w, 'r, 'b) ReaderTask" where
  "chain_RT = chainW"

definition flatten :: "('w, 'r, ('w, 'r, 'a) ReaderTask) ReaderTask \<Rightarrow> ('w, 'r, 'a) ReaderTask" where
  "flatten = chain_RT identity"

subsection \<open>Instances\<close>

definition getSemigroup ::
  "('a, 'z) Semigroup_scheme \<Rightarrow> ('w, 'r, 'a) ReaderTask Semigroup" where
  "getSemigroup S = R_getSemigroup (T_getSemigroup S)"

definition getMonoid :: "'a Monoid \<Rightarrow> ('w, 'r, 'a) ReaderTask Monoid" where
  "getMonoid M = \<lparr>concat_S = concat_S (getSemigroup M), empty_M = of_RT (empty_M M)\<rparr>"

text \<open>
  The instance records \<^verbatim>\<open>ApplicativePar\<close> and \<^verbatim>\<open>ApplicativeSeq\<close> share \<^verbatim>\<open>map\<close> and
  \<^verbatim>\<open>of\<close>; they differ in their field \<^verbatim>\<open>ap\<close>, which is what is defined here.
\<close>

definition ApplicativePar_ap ::
  "('u World, 'r, 'a) ReaderTask \<Rightarrow> ('u World, 'r, 'a \<Rightarrow> 'b) ReaderTask
   \<Rightarrow> ('u World, 'r, 'b) ReaderTask" where
  "ApplicativePar_ap = ap"

definition ApplicativeSeq_ap ::
  "('w, 'r, 'a) ReaderTask \<Rightarrow> ('w, 'r, 'a \<Rightarrow> 'b) ReaderTask \<Rightarrow> ('w, 'r, 'b) ReaderTask" where
  "ApplicativeSeq_ap fa = chain_RT (\<lambda>f. pipe fa (map_RT f))"

subsection \<open>Do notation\<close>

definition Do :: "('w, 'r, string \<rightharpoonup> 'v) ReaderTask" where
  "Do = of_RT Map.empty"

definition bindW ::
  "string \<Rightarrow> ((string \<rightharpoonup> 'v) \<Rightarrow> ('w, 'r, 'v) ReaderTask)
   \<Rightarrow> ('w, 'r, string \<rightharpoonup> 'v) ReaderTask \<Rightarrow> ('w, 'r, string \<rightharpoonup> 'v) ReaderTask" where
  "bindW name f = chainW (\<lambda>a. pipe (f a) (map_RT (\<lambda>b. bind_field a name b)))"

definition bind_RT ::
  "string \<Rightarrow> ((string \<rightharpoonup> 'v) \<Rightarrow> ('w, 'r, 'v) ReaderTask)
   \<Rightarrow> ('w, 'r, string \<rightharpoonup> 'v) ReaderTask \<Rightarrow> ('w, 'r, string \<rightharpoonup> 'v) ReaderTask" where
  "bind_RT = bindW"

subsection \<open>Array utilities\<close>




section \<open>Instrumented tasks\<close>

text \<open>
  Concrete tasks for the examples. \<open>append_log m\<close> is
  \<^verbatim>\<open>() => Promise.resolve(log.push(m))\<close> on a log shared by all tasks: it appends the
  message when it is invoked and settles with the new length of the log. \<open>after n a\<close>
  settles with \<open>a\<close> after \<open>n\<close> turns and does not touch the world.
\<close>

definition append_log :: "string \<Rightarrow> (string list World, nat) Task" where
  "append_log m = (\<lambda>w. (w\<lparr>store := store w @ [m]\<rparr>, Settled (length (store w) + 1)))"

primrec later :: "nat \<Rightarrow> 'a \<Rightarrow> ('w, 'a) Promise" where
  "later 0 a = Settled a"
| "later (Suc n) a = Pending (\<lambda>w. (w, later n a))"

definition after :: "nat \<Rightarrow> 'a \<Rightarrow> ('w, 'a) Task" where
  "after n a = (\<lambda>w. (w, later n a))"

text \<open>
  Two effects over the shared log, after the pattern of a test that records the order of
  events: \<open>log_fab\<close> logs its start when invoked and its end in a later turn, and
  resolves to a function that pairs the length of the log at its end with its argument;
  \<open>log_fa\<close> logs its start and resolves to the length of the log.
\<close>

definition log_fab :: "(string list World, unit, nat \<Rightarrow> nat list) ReaderTask" where
  "log_fab = map_RT (\<lambda>n a. [n, a])
     (chain_RT (\<lambda>_. fromTask (append_log ''end 1'')) (fromTask (append_log ''start 1'')))"

definition log_fa :: "(string list World, unit, nat) ReaderTask" where
  "log_fa = fromTask (append_log ''start 2'')"

definition empty_log :: "string list World" where
  "empty_log = \<lparr>arrivals = [], store = []\<rparr>"


definition late_first :: "unit World" where
  "late_first = \<lparr>arrivals = [False, False, True], store = ()\<rparr>"

definition sum_Monoid :: "int Monoid" where
  "sum_Monoid = \<lparr>concat_S = (+), empty_M = 0\<rparr>"

section \<open>Awaiting promises\<close>

lemma Promise_induct [case_names Settled Pending]:
  assumes "\<And>a. Q (Settled a)"
    and "\<And>k. (\<And>w. Q (snd (k w))) \<Longrightarrow> Q (Pending k)"
  shows "Q p"
proof (induction p)
  case (Settled a)
  show ?case by (rule assms(1))
next
  case (Pending k)
  show ?case
  proof (rule assms(2))
    fix w
    show "Q (snd (k w))"
      by (rule Pending.IH [of "k w"]) (auto simp: snds.simps)
  qed
qed

lemma settle_Pending [simp]: "settle (Pending k) w = settle (snd (k w)) (fst (k w))"
  by (cases "k w") simp

lemma then_value_Pending [simp]:
  "then_value f (Pending k) = Pending (\<lambda>w. (fst (k w), then_value f (snd (k w))))"
  by (simp add: fun_eq_iff map_prod_def split: prod.splits)

lemma then_task_Pending [simp]:
  "then_task f (Pending k) = Pending (\<lambda>w. (fst (k w), then_task f (snd (k w))))"
  by (simp add: fun_eq_iff map_prod_def split: prod.splits)

lemma pmap_Pending [simp]:
  "pmap f (Pending k) = Pending (\<lambda>w. (fst (k w), pmap f (snd (k w))))"
  by (simp add: fun_eq_iff map_prod_def split: prod.splits)

lemma settles_in_Settled [simp]: "settles_in (Settled a) P = P a"
  by simp

lemma settles_in_Pending [simp]:
  "settles_in (Pending k) P = (\<forall>w. settles_in (snd (k w)) P)"
proof -
  have "\<And>w. (case map_prod id settles_in (k w) of (w', s) \<Rightarrow> s P) = settles_in (snd (k w)) P"
    by (simp add: map_prod_def split: prod.splits)
  then show ?thesis by simp
qed

declare settle.simps(2) [simp del] then_value.simps(2) [simp del]
  then_task.simps(2) [simp del] pmap.simps(2) [simp del] settles_in.simps [simp del]

lemma run_eq: "run t w = settle (snd (t w)) (fst (t w))"
  by (simp add: run_def split: prod.splits)

lemma settle_pmap: "settle (pmap f p) w = (fst (settle p w), f (snd (settle p w)))"
  by (induction p arbitrary: w rule: Promise_induct) simp_all

lemma settle_then_value:
  "settle (then_value f p) w = (fst (settle p w), f (snd (settle p w)))"
  by (induction p arbitrary: w rule: Promise_induct) simp_all

lemma settle_then_task:
  "settle (then_task f p) w = run (f (snd (settle p w))) (fst (settle p w))"
  by (induction p arbitrary: w rule: Promise_induct) (simp_all add: run_eq)

lemma run_T_of: "run (T_of a) w = (w, a)"
  by (simp add: run_eq T_of_def)

lemma run_T_map: "run (T_map f fa) w = (fst (run fa w), f (snd (run fa w)))"
  by (simp add: run_eq T_map_def settle_then_value case_prod_unfold)

lemma run_T_chain: "run (T_chain f ma) w = run (f (snd (run ma w))) (fst (run ma w))"
  by (simp add: run_eq T_chain_def settle_then_task case_prod_unfold)

lemma run_of_RT: "run (of_RT a r) w = (w, a)"
  by (simp add: of_RT_def run_T_of)

lemma run_map_RT: "run (map_RT f fa r) w = (fst (run (fa r) w), f (snd (run (fa r) w)))"
  by (simp add: map_RT_def flow_def run_T_map)

lemma run_chain_RT:
  "run (chain_RT f fa r) w = run (f (snd (run (fa r) w)) r) (fst (run (fa r) w))"
  by (simp add: chain_RT_def chainW_def pipe_def run_T_chain)

section \<open>Promises that run side by side\<close>

lemma both_Pending_Settled:
  "both (Pending k1) (Settled b) = Pending (\<lambda>w. (fst (k1 w), both (snd (k1 w)) (Settled b)))"
  by (simp add: fun_eq_iff map_prod_def split: prod.splits)

lemma both_Pending_Pending:
  "both (Pending k1) (Pending k2) = Pending (\<lambda>w.
     if fst (next_arrival w)
     then (fst (k1 (snd (next_arrival w))), both (snd (k1 (snd (next_arrival w)))) (Pending k2))
     else (fst (k2 (snd (next_arrival w))), both (Pending k1) (snd (k2 (snd (next_arrival w))))))"
  by (auto simp: fun_eq_iff map_prod_def split: prod.splits bool.splits)

declare both.simps(2) [simp del] both_left.simps [simp del]
  both_Pending_Settled [simp] both_Pending_Pending [simp]

lemma both_Settled_right: "both p (Settled b) = pmap (\<lambda>a. (a, b)) p"
  by (induction p rule: Promise_induct) simp_all

lemma settles_in_mono: "settles_in p P \<Longrightarrow> (\<And>a. P a \<Longrightarrow> Q a) \<Longrightarrow> settles_in p Q"
  by (induction p rule: Promise_induct) auto

lemma settles_in_settle: "settles_in p P \<Longrightarrow> P (snd (settle p w))"
  by (induction p arbitrary: w rule: Promise_induct) auto

lemma settles_in_pmap: "settles_in (pmap f p) Q = settles_in p (\<lambda>a. Q (f a))"
  by (induction p rule: Promise_induct) auto

lemma settles_in_then_value: "settles_in (then_value f p) Q = settles_in p (\<lambda>a. Q (f a))"
  by (induction p rule: Promise_induct) auto

lemma settles_in_then_task:
  "settles_in (then_task f p) Q = settles_in p (\<lambda>a. task_settles_in (f a) Q)"
  by (induction p rule: Promise_induct) (auto simp: task_settles_in_def)

lemma settles_in_both:
  "settles_in p P \<Longrightarrow> settles_in q Q \<Longrightarrow> settles_in (both p q) (\<lambda>(a, b). P a \<and> Q b)"
proof (induction p arbitrary: q rule: Promise_induct)
  case (Settled a)
  then show ?case by (simp add: settles_in_pmap)
next
  case (Pending k1)
  have left: "settles_in (both (snd (k1 w)) q') (\<lambda>(a, b). P a \<and> Q b)"
    if "settles_in q' Q" for w q'
    using Pending.IH [of w q'] Pending.prems(1) that by simp
  from Pending.prems(2) show ?case
  proof (induction q rule: Promise_induct)
    case (Settled b)
    then show ?case using left [of "Settled b"] by simp
  next
    case (Pending k2)
    have "settles_in (Pending k2) Q" using Pending.prems by simp
    then show ?case using left [of "Pending k2"] Pending.IH Pending.prems by simp
  qed
qed


lemma task_settles_in_settle: "task_settles_in t P \<Longrightarrow> P (snd (run t w))"
  by (simp add: task_settles_in_def run_eq settles_in_settle)










section \<open>Running the combined effects\<close>

lemma run_T_ap_of_left: "run (T_ap fa (T_of f)) w = (fst (run fa w), f (snd (run fa w)))"
  by (simp add: run_eq T_ap_def T_of_def settle_then_value settle_pmap case_prod_unfold)

lemma run_T_ap_of_right: "run (T_ap (T_of a) fab) w = (fst (run fab w), snd (run fab w) a)"
  by (simp add: run_eq T_ap_def T_of_def settle_then_value settle_pmap both_Settled_right
      case_prod_unfold)

lemma run_ApplicativeSeq_ap:
  "run (ApplicativeSeq_ap fa fab r) w =
     (fst (run (fa r) (fst (run (fab r) w))),
      snd (run (fab r) w) (snd (run (fa r) (fst (run (fab r) w)))))"
  by (simp add: ApplicativeSeq_ap_def run_chain_RT pipe_def run_map_RT)

lemma run_bind_RT:
  "run (bind_RT name f fa r) w =
     (case run (fa r) w of (w1, a) \<Rightarrow>
        case run (f a r) w1 of (w2, b) \<Rightarrow> (w2, a(name \<mapsto> b)))"
  by (simp add: bind_RT_def bindW_def chain_RT_def [symmetric] pipe_def bind_field_def
      run_chain_RT run_map_RT case_prod_unfold)

lemma run_getSemigroup:
  "run (concat_S (getSemigroup S) x y r) w =
     (case run (x r) w of (w1, a) \<Rightarrow>
        case run (y r) w1 of (w2, b) \<Rightarrow> (w2, concat_S S a b))"
  by (simp add: getSemigroup_def R_getSemigroup_def T_getSemigroup_def run_T_chain run_T_map
      case_prod_unfold)

lemma run_append_log:
  "run (append_log m) w = (w\<lparr>store := store w @ [m]\<rparr>, length (store w) + 1)"
  by (simp add: run_eq append_log_def)

lemma task_settles_in_T_ap:
  assumes "task_settles_in fab P" and "task_settles_in fa Q"
  shows "task_settles_in (T_ap fa fab) (\<lambda>b. \<exists>f a. P f \<and> Q a \<and> b = f a)"
  unfolding task_settles_in_def
proof
  fix w
  have p: "settles_in (snd (fab w)) P"
    using assms(1) by (simp add: task_settles_in_def)
  have q: "settles_in (snd (fa (fst (fab w)))) Q"
    using assms(2) by (simp add: task_settles_in_def)
  have "settles_in (both (snd (fab w)) (snd (fa (fst (fab w))))) (\<lambda>(f, a). P f \<and> Q a)"
    by (rule settles_in_both [OF p q])
  then have "settles_in (both (snd (fab w)) (snd (fa (fst (fab w)))))
      (\<lambda>x. \<exists>f a. P f \<and> Q a \<and> (case x of (f, a) \<Rightarrow> f a) = f a)"
    by (rule settles_in_mono) auto
  then show "settles_in (snd (T_ap fa fab w)) (\<lambda>b. \<exists>f a. P f \<and> Q a \<and> b = f a)"
    by (simp add: T_ap_def case_prod_unfold settles_in_then_value)
qed

section \<open>The properties\<close>

text \<open>
  C1. The sequential applicative instance's \<^verbatim>\<open>ap\<close> is the one derived from \<^verbatim>\<open>chain\<close>:
  \<^verbatim>\<open>ApplicativeSeq.ap(fa)(fab)\<close> is \<^verbatim>\<open>chain(f => map(f)(fa))(fab)\<close>, and at every
  environment \<open>r\<close> it is the task that chains \<open>fab r\<close> into the mapped \<open>fa r\<close>.
\<close>

theorem ApplicativeSeq_ap_is_chain:
  "ApplicativeSeq_ap fa fab = chain_RT (\<lambda>f. map_RT f fa) fab
   \<and> ApplicativeSeq_ap fa fab r = T_chain (\<lambda>f. T_map f (fa r)) (fab r)"
  by (simp add: ApplicativeSeq_ap_def pipe_def chain_RT_def chainW_def map_RT_def flow_def)

text \<open>
  C2. \<^verbatim>\<open>chain\<close> and \<^verbatim>\<open>of\<close> satisfy the monad laws: run against any environment \<open>r\<close>
  from any world \<open>w\<close>, both sides of left identity, right identity and associativity
  settle with the same value and leave the same world.
\<close>

theorem chain_monad_laws:
  "run (chain_RT f (of_RT a) r) w = run (f a r) w
   \<and> run (chain_RT of_RT m r) w = run (m r) w
   \<and> run (chain_RT g (chain_RT f m) r) w = run (chain_RT (\<lambda>a. chain_RT g (f a)) m r) w"
  by (simp add: run_chain_RT run_of_RT)

text \<open>
  C3. Both applicative instances satisfy identity, homomorphism and interchange with the
  shared \<^verbatim>\<open>of\<close>. The laws are written function first; the code takes the argument
  effect first, so "\<^verbatim>\<open>of(id)\<close> applied to \<^verbatim>\<open>fa\<close>" is \<open>ap fa (of_RT id)\<close>. Both sides
  are compared on the value they settle with and the world they leave, for every
  environment and every world (so for every arrival order).
\<close>

theorem applicative_laws:
  "run (ApplicativePar_ap fa (of_RT id) r) w = run (fa r) w
   \<and> run (ApplicativePar_ap (of_RT a) (of_RT f) r) w = run (of_RT (f a) r) w
   \<and> run (ApplicativePar_ap (of_RT a) fab r) w
       = run (ApplicativePar_ap fab (of_RT (\<lambda>f. f a)) r) w
   \<and> run (ApplicativeSeq_ap fa (of_RT id) r) w = run (fa r) w
   \<and> run (ApplicativeSeq_ap (of_RT a) (of_RT f) r) w = run (of_RT (f a) r) w
   \<and> run (ApplicativeSeq_ap (of_RT a) fab r) w
       = run (ApplicativeSeq_ap fab (of_RT (\<lambda>f. f a)) r) w"
  by (simp add: ApplicativePar_ap_def ap_def apW_def pipe_def of_RT_def run_T_ap_of_left
      run_T_ap_of_right run_ApplicativeSeq_ap run_T_of)

text \<open>
  C4. \<^verbatim>\<open>map\<close> satisfies the functor laws: mapping the identity changes neither the
  value nor the world an effect settles with, and mapping a composition is the
  composition of the maps.
\<close>

theorem map_functor_laws:
  "run (map_RT id fa r) w = run (fa r) w
   \<and> run (map_RT (g \<circ> f) fa r) w = run ((map_RT g \<circ> map_RT f) fa r) w"
  by (simp add: run_map_RT)



text \<open>
  C6. Do notation is the explicit composition: \<^verbatim>\<open>bind(name, f)(fa)\<close> is
  \<^verbatim>\<open>chain(a => map(b => a extended with name: b)(f(a)))(fa)\<close>. Run against an
  environment it settles \<open>fa\<close> with a record \<open>a\<close>, then the field effect \<open>f a\<close> (which
  sees the fields already bound) in the world \<open>fa\<close> left, and yields \<open>a\<close> extended with
  the new field; two binds from \<^verbatim>\<open>Do\<close>, the second reading the field of the first,
  yield the record of both fields.
\<close>

theorem bind_is_chain_map:
  "bind_RT name f fa = chain_RT (\<lambda>a. map_RT (\<lambda>b. a(name \<mapsto> b)) (f a)) fa
   \<and> run (bind_RT name f fa r) w =
       (case run (fa r) w of (w1, a) \<Rightarrow>
          case run (f a r) w1 of (w2, b) \<Rightarrow> (w2, a(name \<mapsto> b)))
   \<and> run (pipe (pipe Do (bind_RT ''x'' (\<lambda>_. of_RT 1)))
             (bind_RT ''y'' (\<lambda>a. of_RT (the (a ''x'') + 1))) r) w
       = (w, [''x'' \<mapsto> 1::int, ''y'' \<mapsto> 2])"
proof (intro conjI)
  show "bind_RT name f fa = chain_RT (\<lambda>a. map_RT (\<lambda>b. a(name \<mapsto> b)) (f a)) fa"
    by (simp add: bind_RT_def bindW_def chain_RT_def pipe_def bind_field_def)
  show "run (bind_RT name f fa r) w =
       (case run (fa r) w of (w1, a) \<Rightarrow>
          case run (f a r) w1 of (w2, b) \<Rightarrow> (w2, a(name \<mapsto> b)))"
    by (rule run_bind_RT)
  show "run (pipe (pipe Do (bind_RT ''x'' (\<lambda>_. of_RT 1)))
             (bind_RT ''y'' (\<lambda>a. of_RT (the (a ''x'') + 1))) r) w
       = (w, [''x'' \<mapsto> 1::int, ''y'' \<mapsto> 2])"
    by (simp add: pipe_def Do_def run_bind_RT run_of_RT)
qed

text \<open>
  C7. \<^verbatim>\<open>ask\<close> and \<^verbatim>\<open>asks\<close> read the environment: \<^verbatim>\<open>ask()\<close> applied to \<open>r\<close> resolves
  to \<open>r\<close>, \<^verbatim>\<open>asks(f)\<close> to \<open>f r\<close>, and \<^verbatim>\<open>pipe(ask(), map(r => r.n * 2))\<close> applied to
  \<^verbatim>\<open>{n: 21}\<close> resolves to \<open>42\<close>; none of them touches the world.
\<close>

theorem ask_asks_read_environment:
  "run (ask r) w = (w, r)
   \<and> run (asks f r) w = (w, f r)
   \<and> run (pipe ask (map_RT (\<lambda>r. the (r ''n'') * 2)) [''n'' \<mapsto> 21::int]) w = (w, 42)"
  by (simp add: ask_def asks_def flow_def pipe_def run_map_RT run_T_map run_T_of)

text \<open>
  C8. \<^verbatim>\<open>fromTask\<close> is independent of the environment: \<^verbatim>\<open>fromTask(ma)\<close> applied to any
  two environments is the same computation, the task \<open>ma\<close> itself, and it resolves to
  the task's own result.
\<close>

theorem fromTask_ignores_environment:
  "fromTask ma r1 = fromTask ma r2
   \<and> fromTask ma r1 = ma
   \<and> run (fromTask ma r1) w = run ma w"
  by (simp add: fromTask_def R_of_def)

text \<open>
  C9. \<^verbatim>\<open>getSemigroup\<close> and \<^verbatim>\<open>getMonoid\<close> combine effects pointwise: the derived
  \<^verbatim>\<open>concat\<close> runs \<open>x\<close> and then \<open>y\<close> against the same environment and combines the two
  values with \<^verbatim>\<open>S.concat\<close>; the \<^verbatim>\<open>concat\<close> of \<^verbatim>\<open>getMonoid(M)\<close> is that of
  \<^verbatim>\<open>getSemigroup(M)\<close>, so it combines pointwise with \<^verbatim>\<open>M.concat\<close> as well; the
  derived \<^verbatim>\<open>empty\<close> is \<^verbatim>\<open>of(M.empty)\<close>, and it is a two-sided identity of the derived
  \<^verbatim>\<open>concat\<close> whenever \<^verbatim>\<open>M.empty\<close> is one of \<^verbatim>\<open>M.concat\<close>.
\<close>

theorem getSemigroup_getMonoid_pointwise:
  "run (concat_S (getSemigroup S) x y r) w =
     (case run (x r) w of (w1, a) \<Rightarrow>
        case run (y r) w1 of (w2, b) \<Rightarrow> (w2, concat_S S a b))
   \<and> concat_S (getMonoid M) = (concat_S (getSemigroup M)
        :: ('w, 'r, 'a) ReaderTask \<Rightarrow> ('w, 'r, 'a) ReaderTask \<Rightarrow> ('w, 'r, 'a) ReaderTask)
   \<and> run (concat_S (getMonoid M) u v r) w =
       (case run ((u :: ('w, 'r, 'a) ReaderTask) r) w of (w1, a) \<Rightarrow>
          case run (v r) w1 of (w2, b) \<Rightarrow> (w2, concat_S M a b))
   \<and> empty_M (getMonoid M) = (of_RT (empty_M M) :: ('w, 'r, 'a) ReaderTask)
   \<and> ((\<forall>a. concat_S M (empty_M M) a = a \<and> concat_S M a (empty_M M) = a) \<longrightarrow>
         run (concat_S (getMonoid M) (empty_M (getMonoid M)) z r) w
           = run ((z :: ('w, 'r, 'a) ReaderTask) r) w
       \<and> run (concat_S (getMonoid M) z (empty_M (getMonoid M)) r) w = run (z r) w)"
  by (simp add: run_getSemigroup getMonoid_def run_of_RT case_prod_unfold)

text \<open>
  Integers under addition: combining the effect that reads the environment \<open>4\<close> and adds
  one with the derived \<^verbatim>\<open>empty\<close>, on either side, resolves to \<open>5\<close>, and so does
  combining \<^verbatim>\<open>of(2)\<close> with \<^verbatim>\<open>of(3)\<close>.
\<close>

theorem getSemigroup_getMonoid_pointwise_witness:
  "run (concat_S (getMonoid sum_Monoid) (empty_M (getMonoid sum_Monoid))
          (asks (\<lambda>r. r + 1)) (4::int)) late_first = (late_first, 5)
   \<and> run (concat_S (getMonoid sum_Monoid) (asks (\<lambda>r. r + 1))
          (empty_M (getMonoid sum_Monoid)) (4::int)) late_first = (late_first, 5)
   \<and> run (concat_S (getMonoid sum_Monoid) (of_RT 2) (of_RT 3) (4::int)) late_first
       = (late_first, 5)
   \<and> run (concat_S (getSemigroup sum_Monoid) (of_RT 2) (of_RT 3) (4::int)) late_first
       = (late_first, 5)"
proof -
  have unit_laws: "\<forall>a. concat_S sum_Monoid (empty_M sum_Monoid) a = a
      \<and> concat_S sum_Monoid a (empty_M sum_Monoid) = a"
    by (simp add: sum_Monoid_def)
  have alone: "run (asks (\<lambda>r. r + 1) (4::int)) late_first = (late_first, 5)"
    by (simp add: asks_def flow_def run_T_map run_T_of)
  note inst = getSemigroup_getMonoid_pointwise
      [where S = sum_Monoid and x = "of_RT 2" and y = "of_RT 3" and r = "4::int"
        and w = late_first and M = sum_Monoid and u = "of_RT 2" and v = "of_RT 3"
        and z = "asks (\<lambda>r. r + 1)"]
  from unit_laws inst
  have "run (concat_S (getMonoid sum_Monoid) (empty_M (getMonoid sum_Monoid))
          (asks (\<lambda>r. r + 1)) (4::int)) late_first
        = run (asks (\<lambda>r. r + 1) (4::int)) late_first
    \<and> run (concat_S (getMonoid sum_Monoid) (asks (\<lambda>r. r + 1))
          (empty_M (getMonoid sum_Monoid)) (4::int)) late_first
        = run (asks (\<lambda>r. r + 1) (4::int)) late_first"
    by blast
  moreover from inst
  have "run (concat_S (getMonoid sum_Monoid) (of_RT 2) (of_RT 3) (4::int)) late_first
       = (late_first, 5)"
    by (simp add: run_of_RT sum_Monoid_def)
  moreover from inst
  have "run (concat_S (getSemigroup sum_Monoid) (of_RT 2) (of_RT 3) (4::int)) late_first
       = (late_first, 5)"
    by (simp add: run_of_RT sum_Monoid_def)
  ultimately show ?thesis
    by (simp only: alone)
qed

text \<open>
  C10, as stated, fails: the two applicative disciplines can resolve to different
  values. With the two effects over the shared log, the parallel instance starts
  \<open>log_fa\<close> before \<open>log_fab\<close> has logged its end, the sequential one after: the first
  resolves to \<open>[3, 2]\<close>, the second to \<open>[2, 3]\<close>.
\<close>

theorem ap_par_seq_differ:
  "snd (run (ApplicativePar_ap log_fa log_fab ()) empty_log) = [3, 2]
   \<and> snd (run (ApplicativeSeq_ap log_fa log_fab ()) empty_log) = [2, 3]"
proof
  show "snd (run (ApplicativePar_ap log_fa log_fab ()) empty_log) = [3, 2]"
    by (simp add: log_fa_def log_fab_def empty_log_def fromTask_def R_of_def append_log_def
        run_eq ApplicativePar_ap_def ap_def apW_def pipe_def T_ap_def map_RT_def flow_def
        T_map_def chain_RT_def chainW_def T_chain_def)
  show "snd (run (ApplicativeSeq_ap log_fa log_fab ()) empty_log) = [2, 3]"
    by (simp add: log_fa_def log_fab_def empty_log_def run_ApplicativeSeq_ap run_map_RT
        run_chain_RT fromTask_def R_of_def run_append_log)
qed

text \<open>
  C10, amended. When the value each of the two effects settles with at \<open>r\<close> is fixed,
  whatever the world and the timing, the parallel and the sequential instance resolve to
  the same value, the function's value applied to the argument's, for every arrival
  order.
\<close>

theorem ap_par_seq_agree_on_fixed_values:
  assumes "task_settles_in (fab r) (\<lambda>f. f = f0)"
    and "task_settles_in (fa r) (\<lambda>a. a = a0)"
  shows "snd (run (ApplicativePar_ap fa fab r) w) = f0 a0
    \<and> snd (run (ApplicativeSeq_ap fa fab r) w) = f0 a0"
proof
  have "task_settles_in (T_ap (fa r) (fab r)) (\<lambda>b. \<exists>f a. f = f0 \<and> a = a0 \<and> b = f a)"
    by (rule task_settles_in_T_ap [OF assms])
  then show "snd (run (ApplicativePar_ap fa fab r) w) = f0 a0"
    by (auto simp: ApplicativePar_ap_def ap_def apW_def pipe_def
        dest: task_settles_in_settle [where w = w])
next
  have "snd (run (fab r) w) = f0"
    using assms(1) by (rule task_settles_in_settle)
  moreover have "snd (run (fa r) (fst (run (fab r) w))) = a0"
    using assms(2) by (rule task_settles_in_settle)
  ultimately show "snd (run (ApplicativeSeq_ap fa fab r) w) = f0 a0"
    by (simp add: run_ApplicativeSeq_ap)
qed

text \<open>
  A function that settles after two turns applied to an argument that settles after
  one: both instances resolve to \<open>42\<close>.
\<close>

theorem ap_par_seq_agree_on_fixed_values_witness:
  "snd (run (ApplicativePar_ap (fromTask (after 1 41))
          (fromTask (after 2 (\<lambda>x. x + 1))) ()) late_first) = (42::int)
   \<and> snd (run (ApplicativeSeq_ap (fromTask (after 1 41))
          (fromTask (after 2 (\<lambda>x. x + 1))) ()) late_first) = (42::int)"
  using ap_par_seq_agree_on_fixed_values
    [of "fromTask (after 2 (\<lambda>x. x + 1))" "()" "\<lambda>x. x + 1" "fromTask (after 1 (41::int))" 41
      late_first]
  by (simp add: fromTask_def R_of_def task_settles_in_def after_def numeral_2_eq_2)

end
